theory Spec2Isabelle
  imports Complex_Main "HOL-Library.Word"
begin

section \<open>JavaScript values used by the component\<close>

text \<open>
  A JavaScript string is a sequence of 16-bit code units. ASCII literals of the source are
  written through \<open>str\<close>.
\<close>

type_synonym jsstring = "16 word list"

definition str :: "string \<Rightarrow> jsstring" where
  "str s = map of_char s"

text \<open>
  \<open>String.prototype.trim\<close> strips, at both ends, the code units of the ECMAScript
  productions WhiteSpace and LineTerminator: TAB, LF, VT, FF, CR, SP, NBSP, U+1680,
  U+2000..U+200A, U+2028, U+2029, U+202F, U+205F, U+3000 and U+FEFF.
\<close>

definition is_ws :: "16 word \<Rightarrow> bool" where
  "is_ws c \<longleftrightarrow>
     c = 0x9 \<or> c = 0xA \<or> c = 0xB \<or> c = 0xC \<or> c = 0xD \<or> c = 0x20 \<or> c = 0xA0 \<or>
     c = 0x1680 \<or> (0x2000 \<le> c \<and> c \<le> 0x200A) \<or> c = 0x2028 \<or> c = 0x2029 \<or>
     c = 0x202F \<or> c = 0x205F \<or> c = 0x3000 \<or> c = 0xFEFF"

definition trim :: "jsstring \<Rightarrow> jsstring" where
  "trim s = rev (dropWhile is_ws (rev (dropWhile is_ws s)))"

text \<open>
  The values that \<open>response.json()\<close> can produce, together with \<open>undefined\<close>, which a
  read of a missing property yields. An object is the list of its own properties, each key
  once. Number literals stand for the reals they denote; the component does no arithmetic
  on them.
\<close>

datatype jsval =
    JUndefined
  | JNull
  | JBool bool
  | JNum real
  | JStr jsstring
  | JArr "jsval list"
  | JObj "(jsstring \<times> jsval) list"

fun truthy :: "jsval \<Rightarrow> bool" where
  "truthy JUndefined = False"
| "truthy JNull = False"
| "truthy (JBool b) = b"
| "truthy (JNum r) = (r \<noteq> 0)"
| "truthy (JStr s) = (s \<noteq> [])"
| "truthy (JArr _) = True"
| "truthy (JObj _) = True"

fun nullish :: "jsval \<Rightarrow> bool" where
  "nullish JUndefined = True"
| "nullish JNull = True"
| "nullish _ = False"

text \<open>
  \<open>v.k\<close> for a value \<open>v\<close> that is neither \<open>null\<close> nor \<open>undefined\<close> (there the read throws
  a TypeError, which the callers below test with \<open>nullish\<close> first). The keys read by the
  component (\<open>response\<close>, \<open>text\<close>, \<open>selected_model\<close>, \<open>model_info\<close>, \<open>voice_model\<close>,
  \<open>processing_time\<close>, \<open>tempo\<close>, \<open>models\<close>) are no built-in properties of strings, numbers,
  booleans or arrays, so a read on those yields \<open>undefined\<close>.
\<close>

fun get_prop :: "jsval \<Rightarrow> jsstring \<Rightarrow> jsval" where
  "get_prop (JObj kvs) k = (case map_of kvs k of None \<Rightarrow> JUndefined | Some v \<Rightarrow> v)"
| "get_prop _ k = JUndefined"

text \<open>\<open>xs.slice(-n)\<close>: the last \<open>n\<close> elements, or all of them when there are fewer.\<close>

definition slice_last :: "nat \<Rightarrow> 'a list \<Rightarrow> 'a list" where
  "slice_last n xs = drop (length xs - n) xs"

section \<open>Component state\<close>

datatype sender = User | AI

text \<open>
  A message object. Fields that an object literal of the source leaves out read as
  \<open>undefined\<close>. \<open>id\<close> and \<open>text\<close> of the source are \<open>id_msg\<close> and \<open>text_msg\<close>.
\<close>

record message =
  id_msg :: int
  text_msg :: jsval
  sender :: sender
  model :: jsval
  modelInfo :: jsval
  voiceModel :: jsval
  timestamp :: jsstring
  processingTime :: jsval
  error :: jsval

datatype connection = Disconnected | Connected | ConnError

text \<open>The \<open>useState\<close> cells of \<open>App\<close>.\<close>

record app_state =
  messages :: "message list"
  inputMessage :: jsstring
  isLoading :: bool
  selectedModel :: jsstring
  isListening :: bool
  isSpeaking :: bool
  availableModels :: jsval
  connectionStatus :: connection

definition initial_state :: app_state where
  "initial_state =
     \<lparr> messages = [], inputMessage = [], isLoading = False, selectedModel = str ''claude'',
       isListening = False, isSpeaking = False, availableModels = JObj [],
       connectionStatus = Disconnected \<rparr>"

text \<open>
  What the browser offers: whether \<open>webkitSpeechRecognition\<close> is in \<open>window\<close> (then
  \<open>recognitionRef.current\<close> is set), and the speech synthesis engine: not in \<open>window\<close>; in
  \<open>window\<close> but building or speaking an utterance throws; or working.
\<close>

datatype speech_engine = Absent | Faulty | Working

record env =
  hasRecognition :: bool
  synthesis :: speech_engine

text \<open>One reading of the clock: \<open>Date.now()\<close> and \<open>new Date().toLocaleTimeString()\<close>.\<close>

record clock =
  now :: int
  localeTime :: jsstring

text \<open>The body of the \<open>POST /chat\<close> request, before \<open>JSON.stringify\<close>.\<close>

record request =
  message :: jsstring
  user_id :: jsstring
  selected_model :: jsstring
  conversation_history :: "message list"

record utterance =
  utext :: jsval
  rate :: real
  pitch :: real
  volume :: real

text \<open>
  A handler is the list of calls it makes, in program order: state setters of the
  component and calls into the browser.
\<close>

datatype action =
    SetMessages_append message
  | SetInputMessage jsstring
  | SetIsLoading bool
  | SetSelectedModel jsstring
  | SetIsListening bool
  | SetIsSpeaking bool
  | SetAvailableModels jsval
  | SetConnectionStatus connection
  | FetchChat request
  | SpeechSpeak utterance
  | SpeechCancel
  | RecognitionStart
  | RecognitionStop
  | ConsoleError

text \<open>
  Applying the queued state updates: \<open>setMessages(prev => [...prev, m])\<close> appends to
  whatever the list is when the update runs, the other setters store a value, and calls
  into the browser leave the component state alone.
\<close>

fun apply_action :: "action \<Rightarrow> app_state \<Rightarrow> app_state" where
  "apply_action (SetMessages_append m) s = s\<lparr>messages := messages s @ [m]\<rparr>"
| "apply_action (SetInputMessage v) s = s\<lparr>inputMessage := v\<rparr>"
| "apply_action (SetIsLoading b) s = s\<lparr>isLoading := b\<rparr>"
| "apply_action (SetSelectedModel k) s = s\<lparr>selectedModel := k\<rparr>"
| "apply_action (SetIsListening b) s = s\<lparr>isListening := b\<rparr>"
| "apply_action (SetIsSpeaking b) s = s\<lparr>isSpeaking := b\<rparr>"
| "apply_action (SetAvailableModels v) s = s\<lparr>availableModels := v\<rparr>"
| "apply_action (SetConnectionStatus c) s = s\<lparr>connectionStatus := c\<rparr>"
| "apply_action _ s = s"

definition commit :: "action list \<Rightarrow> app_state \<Rightarrow> app_state" where
  "commit acts s = fold apply_action acts s"

fun is_append :: "action \<Rightarrow> bool" where
  "is_append (SetMessages_append _) = True"
| "is_append _ = False"

fun is_fetch :: "action \<Rightarrow> bool" where
  "is_fetch (FetchChat _) = True"
| "is_fetch _ = False"

fun is_speak :: "action \<Rightarrow> bool" where
  "is_speak (SpeechSpeak _) = True"
| "is_speak _ = False"

section \<open>The handlers\<close>

text \<open>
  Every handler reads the state through the closure of the render it was created in
  (its argument \<open>s\<close>) and returns the calls it makes. A handler that an event starts runs
  on the latest render.
\<close>

subsection \<open>Speech recognition callbacks\<close>

definition recognition_onresult :: "jsstring \<Rightarrow> action list" where
  "recognition_onresult transcript = [SetInputMessage transcript, SetIsListening False]"

definition recognition_onerror :: "action list" where
  "recognition_onerror = [SetIsListening False]"

definition recognition_onend :: "action list" where
  "recognition_onend = [SetIsListening False]"

subsection \<open>sendMessage\<close>

definition userMessage :: "clock \<Rightarrow> app_state \<Rightarrow> message" where
  "userMessage clk s =
     \<lparr> id_msg = now clk, text_msg = JStr (inputMessage s), sender = User,
       model = JUndefined, modelInfo = JUndefined, voiceModel = JUndefined,
       timestamp = localeTime clk, processingTime = JUndefined, error = JUndefined \<rparr>"

definition chat_request :: "app_state \<Rightarrow> request" where
  "chat_request s =
     \<lparr> message = inputMessage s, user_id = str ''user_123'',
       selected_model = selectedModel s,
       conversation_history = slice_last 5 (messages s) \<rparr>"

text \<open>\<open>sendMessage\<close> up to its \<open>await fetch(...)\<close>.\<close>

definition sendMessage :: "clock \<Rightarrow> app_state \<Rightarrow> action list" where
  "sendMessage clk s =
     (if trim (inputMessage s) = [] \<or> isLoading s then []
      else [SetMessages_append (userMessage clk s), SetInputMessage [], SetIsLoading True,
            FetchChat (chat_request s)])"

text \<open>
  How a \<open>fetch\<close> settles: the promise rejects, or it resolves to a response with its \<open>ok\<close>
  flag and the result of \<open>response.json()\<close> (\<open>None\<close> when that rejects).
\<close>

datatype fetch_outcome = FetchRejected | FetchResponse bool "jsval option"

definition tempo_rate :: "jsval \<Rightarrow> real" where
  "tempo_rate tempo =
     (if tempo = JStr (str ''fast'') then 1.2
      else if tempo = JStr (str ''slow_moderate'') then 0.8 else 1.0)"

text \<open>
  \<open>synthesizeVoice\<close>. It has no \<open>await\<close>, so it runs to its end when called. Inside the
  \<open>try\<close>, a throw (the faulty engine, or \<open>voiceModel.tempo\<close> on \<open>null\<close> or \<open>undefined\<close>) goes
  to the \<open>catch\<close>.
\<close>

definition synthesizeVoice :: "env \<Rightarrow> jsval \<Rightarrow> jsval \<Rightarrow> action list" where
  "synthesizeVoice e txt vm =
     SetIsSpeaking True #
     (case synthesis e of
        Absent \<Rightarrow> []
      | Faulty \<Rightarrow> [ConsoleError, SetIsSpeaking False]
      | Working \<Rightarrow>
          if nullish vm then [ConsoleError, SetIsSpeaking False]
          else [SpeechSpeak \<lparr> utext = txt, rate = tempo_rate (get_prop vm (str ''tempo'')),
                              pitch = 1.0, volume = 0.8 \<rparr>])"

definition utterance_onend :: "action list" where
  "utterance_onend = [SetIsSpeaking False]"

definition utterance_onerror :: "action list" where
  "utterance_onerror = [SetIsSpeaking False]"

definition aiMessage :: "clock \<Rightarrow> jsval \<Rightarrow> message" where
  "aiMessage clk r =
     \<lparr> id_msg = now clk + 1, text_msg = get_prop r (str ''text''), sender = AI,
       model = get_prop r (str ''selected_model''), modelInfo = get_prop r (str ''model_info''),
       voiceModel = get_prop r (str ''voice_model''), timestamp = localeTime clk,
       processingTime = get_prop r (str ''processing_time''), error = JUndefined \<rparr>"

definition apology :: jsstring where
  "apology = str (''Sorry, I'' @ [CHR 0x27] @
                  ''m having trouble connecting right now. Please try again in a moment.'')"

definition errorMessage :: "clock \<Rightarrow> message" where
  "errorMessage clk =
     \<lparr> id_msg = now clk + 1, text_msg = JStr apology, sender = AI,
       model = JStr (str ''error''), modelInfo = JUndefined, voiceModel = JUndefined,
       timestamp = localeTime clk, processingTime = JUndefined, error = JBool True \<rparr>"

text \<open>
  The \<open>try\<close> block of \<open>sendMessage\<close> after the \<open>await\<close>s: \<open>None\<close> when it throws (rejected
  fetch, \<open>throw new Error\<close> on a response that is not ok, rejected \<open>json()\<close>, TypeError of
  \<open>data.response\<close> or \<open>data.response.text\<close>); every throw comes before the first call.
  \<open>isSpeaking\<close> is read from the closure \<open>snap\<close> of the render in which \<open>sendMessage\<close>
  was called.
\<close>

definition try_block :: "env \<Rightarrow> clock \<Rightarrow> app_state \<Rightarrow> fetch_outcome \<Rightarrow> action list option" where
  "try_block e clk snap outcome =
     (case outcome of
        FetchRejected \<Rightarrow> None
      | FetchResponse ok body \<Rightarrow>
          if \<not> ok then None
          else (case body of
                  None \<Rightarrow> None
                | Some data \<Rightarrow>
                    if nullish data then None
                    else let r = get_prop data (str ''response'') in
                      if nullish r then None
                      else Some (SetMessages_append (aiMessage clk r) #
                        (if truthy (get_prop r (str ''voice_model'')) \<and> \<not> isSpeaking snap
                         then synthesizeVoice e (get_prop r (str ''text''))
                                (get_prop r (str ''voice_model''))
                         else []))))"

text \<open>\<open>sendMessage\<close> from the \<open>await\<close> on: \<open>try\<close>, \<open>catch\<close>, \<open>finally\<close>.\<close>

definition sendMessage_resume :: "env \<Rightarrow> clock \<Rightarrow> app_state \<Rightarrow> fetch_outcome \<Rightarrow> action list" where
  "sendMessage_resume e clk snap outcome =
     (case try_block e clk snap outcome of
        Some acts \<Rightarrow> acts
      | None \<Rightarrow> [SetMessages_append (errorMessage clk), ConsoleError])
     @ [SetIsLoading False]"

subsection \<open>Listening and speaking controls\<close>

definition startListening :: "env \<Rightarrow> app_state \<Rightarrow> action list" where
  "startListening e s =
     (if hasRecognition e \<and> \<not> isListening s then [SetIsListening True, RecognitionStart]
      else [])"

definition stopListening :: "env \<Rightarrow> app_state \<Rightarrow> action list" where
  "stopListening e s =
     (if hasRecognition e \<and> isListening s then [RecognitionStop, SetIsListening False]
      else [])"

definition stopSpeaking :: "env \<Rightarrow> action list" where
  "stopSpeaking e =
     (if synthesis e \<noteq> Absent then [SpeechCancel, SetIsSpeaking False] else [])"

subsection \<open>Connection check and model list\<close>

definition checkConnection :: "fetch_outcome \<Rightarrow> action list" where
  "checkConnection outcome =
     (case outcome of
        FetchRejected \<Rightarrow> [SetConnectionStatus ConnError, ConsoleError]
      | FetchResponse ok body \<Rightarrow>
          [SetConnectionStatus (if ok then Connected else ConnError)])"

definition loadAvailableModels :: "fetch_outcome \<Rightarrow> action list" where
  "loadAvailableModels outcome =
     (case outcome of
        FetchRejected \<Rightarrow> [ConsoleError]
      | FetchResponse ok body \<Rightarrow>
          if \<not> ok then []
          else (case body of
                  None \<Rightarrow> [ConsoleError]
                | Some data \<Rightarrow>
                    if nullish data then [ConsoleError]
                    else [SetAvailableModels (get_prop data (str ''models''))]))"

subsection \<open>Input field and persona buttons\<close>

definition input_onChange :: "jsstring \<Rightarrow> action list" where
  "input_onChange v = [SetInputMessage v]"

definition select_onClick :: "jsstring \<Rightarrow> action list" where
  "select_onClick k = [SetSelectedModel k]"

section \<open>The session as a transition system\<close>

text \<open>
  A configuration is the component state, the closures of the \<open>sendMessage\<close> calls whose
  \<open>fetch\<close> has not settled yet, and the utterances the speech engine holds.
\<close>

record config =
  app :: app_state
  pending :: "app_state list"
  playing :: "utterance list"

text \<open>
  Modelled from the spec: the speech synthesis engine of the browser, which is no part of
  the repository. \<open>speak\<close> adds an utterance to the engine, \<open>cancel\<close> drops all of them
  and no event is delivered for a cancelled utterance, and an utterance ends with one
  \<open>end\<close> or one \<open>error\<close> event.
\<close>

fun engine_action :: "action \<Rightarrow> utterance list \<Rightarrow> utterance list" where
  "engine_action (SpeechSpeak u) q = q @ [u]"
| "engine_action SpeechCancel q = []"
| "engine_action _ q = q"

definition perform :: "action list \<Rightarrow> config \<Rightarrow> config" where
  "perform acts c =
     c\<lparr>app := commit acts (app c), playing := fold engine_action acts (playing c)\<rparr>"

datatype event =
    Ev_sendMessage clock
  | Ev_chat_settled nat fetch_outcome clock
  | Ev_recognition_result jsstring
  | Ev_recognition_error
  | Ev_recognition_end
  | Ev_utterance_end
  | Ev_utterance_error
  | Ev_startListening
  | Ev_stopListening
  | Ev_stopSpeaking
  | Ev_input_change jsstring
  | Ev_select_model jsstring
  | Ev_health_settled fetch_outcome
  | Ev_models_settled fetch_outcome

text \<open>
  One event is handled at a time. A call of \<open>sendMessage\<close> that issues a request leaves its
  closure pending; \<open>Ev_chat_settled k\<close> resumes the \<open>k\<close>-th pending call, and an utterance
  event is delivered only while the engine holds an utterance.
\<close>

fun step :: "env \<Rightarrow> config \<Rightarrow> event \<Rightarrow> config" where
  "step e c (Ev_sendMessage clk) =
     (let acts = sendMessage clk (app c) in
      (perform acts c)\<lparr>pending :=
         (if list_ex is_fetch acts then pending c @ [app c] else pending c)\<rparr>)"
| "step e c (Ev_chat_settled k outcome clk) =
     (if k < length (pending c)
      then (perform (sendMessage_resume e clk (pending c ! k) outcome) c)
             \<lparr>pending := take k (pending c) @ drop (Suc k) (pending c)\<rparr>
      else c)"
| "step e c (Ev_recognition_result t) = perform (recognition_onresult t) c"
| "step e c Ev_recognition_error = perform recognition_onerror c"
| "step e c Ev_recognition_end = perform recognition_onend c"
| "step e c Ev_utterance_end =
     (if playing c = [] then c
      else (perform utterance_onend c)\<lparr>playing := tl (playing c)\<rparr>)"
| "step e c Ev_utterance_error =
     (if playing c = [] then c
      else (perform utterance_onerror c)\<lparr>playing := tl (playing c)\<rparr>)"
| "step e c Ev_startListening = perform (startListening e (app c)) c"
| "step e c Ev_stopListening = perform (stopListening e (app c)) c"
| "step e c Ev_stopSpeaking = perform (stopSpeaking e) c"
| "step e c (Ev_input_change v) = perform (input_onChange v) c"
| "step e c (Ev_select_model k) = perform (select_onClick k) c"
| "step e c (Ev_health_settled outcome) = perform (checkConnection outcome) c"
| "step e c (Ev_models_settled outcome) = perform (loadAvailableModels outcome) c"

definition run :: "env \<Rightarrow> config \<Rightarrow> event list \<Rightarrow> config" where
  "run e c evs = foldl (step e) c evs"

definition initial_config :: config where
  "initial_config = \<lparr> app = initial_state, pending = [], playing = [] \<rparr>"

section \<open>Auxiliary notions\<close>

text \<open>The messages that a list of calls appends, in order.\<close>

fun appended :: "action list \<Rightarrow> message list" where
  "appended [] = []"
| "appended (SetMessages_append m # acts) = m # appended acts"
| "appended (_ # acts) = appended acts"

text \<open>
  The clock readings of a sequence of events run ahead of the ids given so far: at a
  submission \<open>Date.now()\<close> is above the largest id \<open>hi\<close>, at a settled request it is not
  below it.
\<close>

fun clock_ahead :: "int \<Rightarrow> event list \<Rightarrow> bool" where
  "clock_ahead hi [] = True"
| "clock_ahead hi (Ev_sendMessage clk # evs) = (hi < now clk \<and> clock_ahead (now clk) evs)"
| "clock_ahead hi (Ev_chat_settled k outcome clk # evs) =
     (hi \<le> now clk \<and> clock_ahead (now clk + 1) evs)"
| "clock_ahead hi (_ # evs) = clock_ahead hi evs"

text \<open>
  What holds in every configuration the session reaches: at most one call of
  \<open>sendMessage\<close> is pending, and only while \<open>isLoading\<close>; \<open>isSpeaking\<close> can only have
  fallen since a pending call was made; the engine holds at most one utterance, and only
  while \<open>isSpeaking\<close>.
\<close>

definition session_inv :: "config \<Rightarrow> bool" where
  "session_inv c \<longleftrightarrow>
     length (pending c) \<le> 1 \<and>
     (pending c \<noteq> [] \<longrightarrow> isLoading (app c)) \<and>
     (\<forall>s \<in> set (pending c). isSpeaking (app c) \<longrightarrow> isSpeaking s) \<and>
     (playing c \<noteq> [] \<longrightarrow> isSpeaking (app c)) \<and>
     length (playing c) \<le> 1"

section \<open>Sample inputs\<close>

definition clock0 :: clock where
  "clock0 = \<lparr> now = 1000, localeTime = str ''10:00:00 AM'' \<rparr>"

definition env0 :: env where
  "env0 = \<lparr> hasRecognition = True, synthesis = Working \<rparr>"

definition blank_config :: config where
  "blank_config = initial_config\<lparr>app := initial_state\<lparr>inputMessage := str ''  ''\<rparr>\<rparr>"

definition loading_config :: config where
  "loading_config =
     initial_config\<lparr>app := initial_state\<lparr>inputMessage := str ''hi'', isLoading := True\<rparr>\<rparr>"

definition hi_state :: app_state where
  "hi_state = initial_state\<lparr>inputMessage := str ''hi''\<rparr>"

definition padded_state :: app_state where
  "padded_state = initial_state\<lparr>inputMessage := str '' hi ''\<rparr>"

definition hi_config :: config where
  "hi_config = initial_config\<lparr>app := hi_state\<rparr>"

definition clock1 :: clock where
  "clock1 = \<lparr> now = 1400, localeTime = str ''10:00:01 AM'' \<rparr>"

definition fast_voice :: jsval where
  "fast_voice = JObj [(str ''tempo'', JStr (str ''fast''))]"

definition slow_voice :: jsval where
  "slow_voice = JObj [(str ''tempo'', JStr (str ''slow_moderate''))]"

definition normal_voice :: jsval where
  "normal_voice = JObj [(str ''tempo'', JStr (str ''normal''))]"

definition listening_config :: config where
  "listening_config = initial_config\<lparr>app := hi_state\<lparr>isListening := True\<rparr>\<rparr>"

definition clock2 :: clock where
  "clock2 = \<lparr> now = 1401, localeTime = str ''10:00:01 AM'' \<rparr>"

definition failed_exchange :: "event list" where
  "failed_exchange =
     [Ev_input_change (str ''hi''), Ev_sendMessage clock0,
      Ev_chat_settled 0 FetchRejected clock1]"

definition voiced_response :: fetch_outcome where
  "voiced_response =
     FetchResponse True (Some (JObj [(str ''response'',
       JObj [(str ''text'', JStr (str ''Irie'')),
             (str ''selected_model'', JStr (str ''claude'')),
             (str ''voice_model'', fast_voice)])]))"

definition irie_utterance :: utterance where
  "irie_utterance = \<lparr> utext = JStr (str ''Irie''), rate = 1.2, pitch = 1.0, volume = 0.8 \<rparr>"

definition submit_hi :: "event list" where
  "submit_hi = [Ev_input_change (str ''hi''), Ev_sendMessage clock0]"

definition speaking_resubmit :: "event list" where
  "speaking_resubmit =
     submit_hi @ [Ev_chat_settled 0 voiced_response clock1,
                  Ev_input_change (str ''yo''), Ev_sendMessage clock2]"

definition silent_env :: env where
  "silent_env = \<lparr> hasRecognition = True, synthesis = Absent \<rparr>"

section \<open>Basic facts\<close>

lemma dropWhile_all_iff: "(\<forall>x\<in>set (dropWhile P xs). P x) \<longleftrightarrow> (\<forall>x\<in>set xs. P x)"
proof
  assume a: "\<forall>x\<in>set (dropWhile P xs). P x"
  have "dropWhile P xs = []"
  proof (rule ccontr)
    assume n: "dropWhile P xs \<noteq> []"
    then have "\<not> P (hd (dropWhile P xs))" by (rule hd_dropWhile)
    moreover from n have "hd (dropWhile P xs) \<in> set (dropWhile P xs)" by simp
    ultimately show False using a by blast
  qed
  then show "\<forall>x\<in>set xs. P x" by (simp add: dropWhile_eq_Nil_conv)
next
  assume "\<forall>x\<in>set xs. P x"
  then show "\<forall>x\<in>set (dropWhile P xs). P x" by (meson set_dropWhileD)
qed

lemma trim_Nil_iff: "trim s = [] \<longleftrightarrow> (\<forall>c\<in>set s. is_ws c)"
  by (simp add: trim_def dropWhile_eq_Nil_conv dropWhile_all_iff)

lemma commit_Nil: "commit [] s = s"
  by (simp add: commit_def)

lemma commit_Cons: "commit (a # acts) s = commit acts (apply_action a s)"
  by (simp add: commit_def)

lemma commit_append: "commit (xs @ ys) s = commit ys (commit xs s)"
  by (simp add: commit_def)

lemma perform_Nil: "perform [] c = c"
  by (simp add: perform_def commit_def)

lemma sendMessage_pass:
  "trim (inputMessage s) \<noteq> [] \<Longrightarrow> \<not> isLoading s \<Longrightarrow>
   sendMessage clk s =
     [SetMessages_append (userMessage clk s), SetInputMessage [], SetIsLoading True,
      FetchChat (chat_request s)]"
  by (simp add: sendMessage_def)

lemma trim_hi: "trim (str ''hi'') = str ''hi''"
  by (simp add: str_def trim_def is_ws_def)

lemma hi_state_pass: "trim (inputMessage hi_state) \<noteq> [] \<and> \<not> isLoading hi_state"
  by (simp add: hi_state_def initial_state_def trim_hi) (simp add: str_def)

lemma try_block_failure:
  "outcome = FetchRejected \<or> outcome = FetchResponse False body \<Longrightarrow>
   try_block e clk snap outcome = None"
  by (auto simp: try_block_def)

lemma resume_failure:
  "try_block e clk snap outcome = None \<Longrightarrow>
   sendMessage_resume e clk snap outcome =
     [SetMessages_append (errorMessage clk), ConsoleError, SetIsLoading False]"
  by (simp add: sendMessage_resume_def)

lemma step_sendMessage_pass:
  assumes "trim (inputMessage (app c)) \<noteq> []" and "\<not> isLoading (app c)"
  shows "step e c (Ev_sendMessage clk) =
         c\<lparr>app := (app c)\<lparr>messages := messages (app c) @ [userMessage clk (app c)],
                          inputMessage := [], isLoading := True\<rparr>,
           pending := pending c @ [app c]\<rparr>"
  using assms by (simp add: sendMessage_pass perform_def commit_Cons commit_Nil)

lemma synthesizeVoice_speaks:
  "SpeechSpeak u \<in> set (synthesizeVoice e txt vm) \<Longrightarrow>
   u = \<lparr> utext = txt, rate = tempo_rate (get_prop vm (str ''tempo'')), pitch = 1, volume = 0.8 \<rparr>"
  by (auto simp: synthesizeVoice_def split: speech_engine.splits if_splits)

lemma run_Nil: "run e c [] = c"
  by (simp add: run_def)

lemma run_Cons: "run e c (ev # evs) = run e (step e c ev) evs"
  by (simp add: run_def)

lemma run_append: "run e c (evs @ evs') = run e (run e c evs) evs'"
  by (simp add: run_def)

lemma messages_commit: "messages (commit acts s) = messages s @ appended acts"
proof (induction acts arbitrary: s)
  case Nil
  then show ?case by (simp add: commit_Nil)
next
  case (Cons a acts)
  then show ?case by (cases a) (simp_all add: commit_Cons)
qed

lemma app_perform: "app (perform acts c) = commit acts (app c)"
  by (simp add: perform_def)

lemma appended_sendMessage:
  "appended (sendMessage clk s) = [] \<or> appended (sendMessage clk s) = [userMessage clk s]"
  by (simp add: sendMessage_def)

lemma appended_synthesizeVoice: "appended (synthesizeVoice e txt vm) = []"
  by (simp add: synthesizeVoice_def split: speech_engine.splits)

lemma appended_append: "appended (xs @ ys) = appended xs @ appended ys"
  by (induction xs rule: appended.induct) simp_all

lemma appended_resume:
  "\<exists>m. appended (sendMessage_resume e clk snap outcome) = [m] \<and> id_msg m = now clk + 1"
proof (cases "try_block e clk snap outcome")
  case None
  then show ?thesis
    by (simp add: sendMessage_resume_def errorMessage_def)
next
  case (Some acts)
  then obtain r where "appended acts = [aiMessage clk r]"
    by (auto simp: try_block_def Let_def appended_synthesizeVoice
        split: fetch_outcome.splits if_splits option.splits)
  with Some show ?thesis
    by (simp add: sendMessage_resume_def appended_append aiMessage_def)
qed

lemma step_messages:
  "\<exists>new. messages (app (step e c ev)) = messages (app c) @ new \<and>
     (new = [] \<or>
      (\<exists>clk. ev = Ev_sendMessage clk \<and> new = [userMessage clk (app c)]) \<or>
      (\<exists>k outcome clk m. ev = Ev_chat_settled k outcome clk \<and> new = [m] \<and>
         id_msg m = now clk + 1))"
proof (cases ev)
  case (Ev_sendMessage clk)
  then show ?thesis
    using appended_sendMessage [of clk "app c"]
    by (auto simp: Let_def app_perform messages_commit)
next
  case (Ev_chat_settled k outcome clk)
  then show ?thesis
    using appended_resume [of e clk "pending c ! k" outcome]
    by (auto simp: app_perform messages_commit)
qed (simp_all add: app_perform messages_commit recognition_onresult_def
      recognition_onerror_def recognition_onend_def utterance_onend_def utterance_onerror_def
      startListening_def stopListening_def stopSpeaking_def input_onChange_def
      select_onClick_def checkConnection_def loadAvailableModels_def
      split: fetch_outcome.splits option.splits)

lemma run_messages: "\<exists>new. messages (app (run e c evs)) = messages (app c) @ new"
proof (induction evs arbitrary: c)
  case Nil
  then show ?case by (simp add: run_Nil)
next
  case (Cons ev evs)
  from step_messages [of e c ev] obtain n1
    where 1: "messages (app (step e c ev)) = messages (app c) @ n1" by blast
  from Cons.IH [of "step e c ev"] obtain n2
    where "messages (app (run e (step e c ev) evs)) = messages (app (step e c ev)) @ n2" by blast
  with 1 show ?case by (simp add: run_Cons)
qed

lemma sorted_ids_snoc:
  assumes "sorted_wrt (<) (map id_msg ms)" and "\<forall>m\<in>set ms. id_msg m \<le> hi" and "hi < id_msg m'"
  shows "sorted_wrt (<) (map id_msg (ms @ [m']))"
  using assms by (fastforce simp: sorted_wrt_append)

lemma run_ids:
  assumes "clock_ahead hi evs"
    and "\<forall>m\<in>set (messages (app c)). id_msg m \<le> hi"
    and "sorted_wrt (<) (map id_msg (messages (app c)))"
  shows "sorted_wrt (<) (map id_msg (messages (app (run e c evs))))"
  using assms
proof (induction evs arbitrary: c hi)
  case Nil
  then show ?case by (simp add: run_Nil)
next
  case (Cons ev evs)
  from step_messages [of e c ev] obtain new
    where m: "messages (app (step e c ev)) = messages (app c) @ new"
      and n: "new = [] \<or>
      (\<exists>clk. ev = Ev_sendMessage clk \<and> new = [userMessage clk (app c)]) \<or>
      (\<exists>k outcome clk m. ev = Ev_chat_settled k outcome clk \<and> new = [m] \<and>
         id_msg m = now clk + 1)" by blast
  obtain hi' where a: "clock_ahead hi' evs" and h: "hi \<le> hi'"
    and i: "\<forall>x\<in>set new. hi < id_msg x \<and> id_msg x \<le> hi'"
  proof (cases ev)
    case (Ev_sendMessage clk)
    with Cons.prems(1) n that [of "now clk"] show ?thesis
      by (auto simp: userMessage_def)
  next
    case (Ev_chat_settled k outcome clk)
    with Cons.prems(1) n that [of "now clk + 1"] show ?thesis
      by auto
  qed (use Cons.prems(1) n that [of hi] in auto)
  have b: "\<forall>m\<in>set (messages (app (step e c ev))). id_msg m \<le> hi'"
    using Cons.prems(2) h i by (auto simp: m)
  from n have "new = [] \<or> (\<exists>x. new = [x])" by blast
  then have s: "sorted_wrt (<) (map id_msg (messages (app (step e c ev))))"
  proof
    assume "new = []"
    with Cons.prems(3) show ?thesis by (simp add: m)
  next
    assume "\<exists>x. new = [x]"
    then obtain x where x: "new = [x]" ..
    with i have "hi < id_msg x" by simp
    with Cons.prems(2,3) show ?thesis
      unfolding m x by (intro sorted_ids_snoc [where hi = hi])
  qed
  from Cons.IH [OF a b s] show ?case by (simp add: run_Cons)
qed

lemma step_input_hi: "step e initial_config (Ev_input_change (str ''hi'')) = hi_config"
  by (simp add: perform_def input_onChange_def commit_Cons commit_Nil hi_config_def
      hi_state_def initial_config_def)

lemma step_hi_send:
  "step e hi_config (Ev_sendMessage clk) =
     \<lparr> app = hi_state\<lparr>messages := [userMessage clk hi_state], inputMessage := [],
                        isLoading := True\<rparr>,
       pending = [hi_state], playing = [] \<rparr>"
proof -
  have a: "app hi_config = hi_state" by (simp add: hi_config_def)
  have "trim (inputMessage (app hi_config)) \<noteq> []" "\<not> isLoading (app hi_config)"
    using hi_state_pass by (simp_all add: a)
  from step_sendMessage_pass [OF this, of e clk] show ?thesis
    by (simp add: hi_config_def initial_config_def) (simp add: hi_state_def initial_state_def)
qed

lemma step_hi_rejected:
  "step e \<lparr> app = hi_state\<lparr>messages := [m], inputMessage := [], isLoading := True\<rparr>,
            pending = [hi_state], playing = [] \<rparr> (Ev_chat_settled 0 FetchRejected clk) =
     \<lparr> app = hi_state\<lparr>messages := [m, errorMessage clk], inputMessage := [],
                        isLoading := False\<rparr>,
       pending = [], playing = [] \<rparr>"
  by (simp add: perform_def resume_failure try_block_failure commit_Cons commit_Nil)

lemma run_failed_exchange:
  "run e initial_config failed_exchange =
     \<lparr> app = hi_state\<lparr>messages := [userMessage clock0 hi_state, errorMessage clock1],
                        inputMessage := [], isLoading := False\<rparr>,
       pending = [], playing = [] \<rparr>"
  by (simp only: failed_exchange_def run_Cons run_Nil step_input_hi step_hi_send step_hi_rejected)

lemma resume_shapes:
  obtains
    (failure) "try_block e clk snap outcome = None"
      "sendMessage_resume e clk snap outcome =
         [SetMessages_append (errorMessage clk), ConsoleError, SetIsLoading False]"
  | (silent) data where "outcome = FetchResponse True (Some data)"
      "\<not> truthy (get_prop (get_prop data (str ''response'')) (str ''voice_model'')) \<or> isSpeaking snap"
      "sendMessage_resume e clk snap outcome =
         [SetMessages_append (aiMessage clk (get_prop data (str ''response''))), SetIsLoading False]"
  | (absent) data where "outcome = FetchResponse True (Some data)"
      "truthy (get_prop (get_prop data (str ''response'')) (str ''voice_model''))"
      "\<not> isSpeaking snap" "synthesis e = Absent"
      "sendMessage_resume e clk snap outcome =
         [SetMessages_append (aiMessage clk (get_prop data (str ''response''))),
          SetIsSpeaking True, SetIsLoading False]"
  | (faulty) data where "outcome = FetchResponse True (Some data)"
      "truthy (get_prop (get_prop data (str ''response'')) (str ''voice_model''))"
      "\<not> isSpeaking snap" "synthesis e = Faulty"
      "sendMessage_resume e clk snap outcome =
         [SetMessages_append (aiMessage clk (get_prop data (str ''response''))),
          SetIsSpeaking True, ConsoleError, SetIsSpeaking False, SetIsLoading False]"
  | (spoken) data where "outcome = FetchResponse True (Some data)"
      "truthy (get_prop (get_prop data (str ''response'')) (str ''voice_model''))"
      "\<not> isSpeaking snap" "synthesis e = Working"
      "sendMessage_resume e clk snap outcome =
         [SetMessages_append (aiMessage clk (get_prop data (str ''response''))),
          SetIsSpeaking True,
          SpeechSpeak \<lparr> utext = get_prop (get_prop data (str ''response'')) (str ''text''),
            rate = tempo_rate (get_prop (get_prop (get_prop data (str ''response''))
                     (str ''voice_model'')) (str ''tempo'')),
            pitch = 1.0, volume = 0.8 \<rparr>,
          SetIsLoading False]"
proof (cases "try_block e clk snap outcome")
  case None
  then show ?thesis
    by (intro failure) (simp_all add: sendMessage_resume_def)
next
  case (Some acts)
  then obtain data where o: "outcome = FetchResponse True (Some data)"
    and d: "\<not> nullish data" "\<not> nullish (get_prop data (str ''response''))"
    by (auto simp: try_block_def Let_def split: fetch_outcome.splits if_splits option.splits)
  let ?r = "get_prop data (str ''response'')"
  let ?vm = "get_prop ?r (str ''voice_model'')"
  show ?thesis
  proof (cases "truthy ?vm \<and> \<not> isSpeaking snap")
    case False
    then show ?thesis
      using o d by (intro silent [of data]) (auto simp: sendMessage_resume_def try_block_def Let_def)
  next
    case True
    then have n: "\<not> nullish ?vm" by (cases ?vm) simp_all
    show ?thesis
    proof (cases "synthesis e")
      case Absent
      with True o d show ?thesis
        by (intro absent [of data])
          (simp_all add: sendMessage_resume_def try_block_def synthesizeVoice_def Let_def)
    next
      case Faulty
      with True o d show ?thesis
        by (intro faulty [of data])
          (simp_all add: sendMessage_resume_def try_block_def synthesizeVoice_def Let_def)
    next
      case Working
      with True o d n show ?thesis
        by (intro spoken [of data])
          (simp_all add: sendMessage_resume_def try_block_def synthesizeVoice_def Let_def)
    qed
  qed
qed

lemma session_inv_initial: "session_inv initial_config"
  by (simp add: session_inv_def initial_config_def)

lemma session_inv_step:
  assumes "session_inv c"
  shows "session_inv (step e c ev)"
proof (cases ev)
  case (Ev_sendMessage clk)
  show ?thesis
  proof (cases "trim (inputMessage (app c)) = [] \<or> isLoading (app c)")
    case True
    then have "step e c ev = c"
      by (simp add: Ev_sendMessage sendMessage_def perform_Nil)
    with assms show ?thesis by simp
  next
    case False
    then have l: "\<not> isLoading (app c)" and t: "trim (inputMessage (app c)) \<noteq> []" by simp_all
    from l assms have p: "pending c = []" by (auto simp: session_inv_def)
    show ?thesis
      using assms unfolding Ev_sendMessage step_sendMessage_pass [OF t l]
      by (simp add: session_inv_def p)
  qed
next
  case (Ev_chat_settled k outcome clk)
  show ?thesis
  proof (cases "k < length (pending c)")
    case False
    with assms show ?thesis by (simp add: Ev_chat_settled)
  next
    case True
    with assms have k: "k = 0" and p: "pending c = [pending c ! 0]"
      by (auto simp: session_inv_def length_Suc_conv le_Suc_eq)
    let ?snap = "pending c ! 0"
    have i: "isSpeaking (app c) \<longrightarrow> isSpeaking ?snap"
      using assms p by (metis list.set_intros(1) session_inv_def)
    have q: "playing c \<noteq> [] \<longrightarrow> isSpeaking (app c)" "length (playing c) \<le> 1"
      using assms by (simp_all add: session_inv_def)
    have r: "drop (Suc 0) (pending c) = []" "length (pending c) = Suc 0"
      using p by (metis drop0 drop_Suc_Cons, metis length_Cons list.size(3))
    show ?thesis
    proof (cases rule: resume_shapes [of e clk ?snap outcome])
      case failure
      then show ?thesis
        using q True by (simp add: Ev_chat_settled k r perform_def commit_Cons commit_Nil session_inv_def)
    next
      case (silent data)
      then show ?thesis
        using q True by (simp add: Ev_chat_settled k r perform_def commit_Cons commit_Nil session_inv_def)
    next
      case (absent data)
      then show ?thesis
        using q True by (simp add: Ev_chat_settled k r perform_def commit_Cons commit_Nil session_inv_def)
    next
      case (faulty data)
      then show ?thesis
        using q i True by (auto simp add: Ev_chat_settled k r perform_def commit_Cons commit_Nil session_inv_def)
    next
      case (spoken data)
      then show ?thesis
        using q i True by (auto simp add: Ev_chat_settled k r perform_def commit_Cons commit_Nil session_inv_def)
    qed
  qed
next
  case Ev_utterance_end
  with assms show ?thesis
    by (auto simp: session_inv_def perform_def commit_Cons commit_Nil utterance_onend_def
        length_Suc_conv le_Suc_eq)
next
  case Ev_utterance_error
  with assms show ?thesis
    by (auto simp: session_inv_def perform_def commit_Cons commit_Nil utterance_onerror_def
        length_Suc_conv le_Suc_eq)
next
  case Ev_stopSpeaking
  with assms show ?thesis
    by (auto simp: session_inv_def perform_def commit_Cons commit_Nil stopSpeaking_def)
qed (use assms in \<open>auto simp: session_inv_def perform_def commit_Cons commit_Nil
      recognition_onresult_def recognition_onerror_def recognition_onend_def
      startListening_def stopListening_def input_onChange_def
      select_onClick_def checkConnection_def loadAvailableModels_def
      split: fetch_outcome.splits option.splits\<close>)

lemma session_inv_run: "session_inv c \<Longrightarrow> session_inv (run e c evs)"
  by (induction evs arbitrary: c) (simp_all add: run_Nil run_Cons session_inv_step)

lemma run_submit_hi:
  "run e initial_config submit_hi =
     \<lparr> app = hi_state\<lparr>messages := [userMessage clock0 hi_state], inputMessage := [],
                        isLoading := True\<rparr>,
       pending = [hi_state], playing = [] \<rparr>"
  by (simp only: submit_hi_def run_Cons run_Nil step_input_hi step_hi_send)

lemma voiced_response_props:
  "voiced_response = FetchResponse True (Some data) \<Longrightarrow>
   truthy (get_prop (get_prop data (str ''response'')) (str ''voice_model'')) \<and>
   get_prop (get_prop data (str ''response'')) (str ''text'') = JStr (str ''Irie'') \<and>
   tempo_rate (get_prop (get_prop (get_prop data (str ''response''))
                     (str ''voice_model'')) (str ''tempo'')) = 1.2"
  by (auto simp: voiced_response_def fast_voice_def tempo_rate_def) (simp_all add: str_def)

lemma resume_voiced_working:
  assumes "synthesis e = Working" and "\<not> isSpeaking snap"
  shows "\<exists>m. sendMessage_resume e clk snap voiced_response =
     [SetMessages_append m, SetIsSpeaking True, SpeechSpeak irie_utterance, SetIsLoading False]"
proof (cases rule: resume_shapes [of e clk snap voiced_response])
  case failure
  then show ?thesis
    by (simp add: try_block_def voiced_response_def Let_def)
next
  case (silent data)
  with assms voiced_response_props [OF silent(1)] show ?thesis by simp
next
  case (spoken data)
  with voiced_response_props [OF spoken(1)] show ?thesis
    by (simp add: irie_utterance_def)
qed (use assms in simp_all)

lemma trim_yo: "trim (str ''yo'') \<noteq> []"
  by (simp add: str_def trim_def is_ws_def)

lemma run_speaking_resubmit:
  "isSpeaking (app (run env0 initial_config speaking_resubmit)) \<and>
   length (pending (run env0 initial_config speaking_resubmit)) = 1 \<and>
   playing (run env0 initial_config speaking_resubmit) = [irie_utterance]"
proof -
  have "synthesis env0 = Working" "\<not> isSpeaking hi_state"
    by (simp_all add: env0_def hi_state_def initial_state_def)
  from resume_voiced_working [OF this, of clock1] obtain m
    where r: "sendMessage_resume env0 clock1 hi_state voiced_response =
     [SetMessages_append m, SetIsSpeaking True, SpeechSpeak irie_utterance, SetIsLoading False]"
    by blast
  show ?thesis
    unfolding speaking_resubmit_def run_append run_submit_hi run_Cons run_Nil
    by (simp add: r perform_def commit_Cons commit_Nil input_onChange_def sendMessage_def trim_yo)
qed

lemma stuck_step:
  assumes "synthesis e = Absent" and "playing c = []" and "isSpeaking (app c)"
  shows "isSpeaking (app (step e c ev)) \<and> playing (step e c ev) = []"
proof (cases ev)
  case (Ev_sendMessage clk)
  with assms show ?thesis
    by (simp add: sendMessage_def Let_def perform_def commit_Cons commit_Nil)
next
  case (Ev_chat_settled k outcome clk)
  show ?thesis
    by (cases rule: resume_shapes [of e clk "pending c ! k" outcome])
      (use assms in \<open>simp_all add: Ev_chat_settled perform_def commit_Cons commit_Nil\<close>)
qed (use assms in \<open>simp_all add: perform_def commit_Cons commit_Nil
      recognition_onresult_def recognition_onerror_def recognition_onend_def
      startListening_def stopListening_def stopSpeaking_def input_onChange_def
      select_onClick_def checkConnection_def loadAvailableModels_def
      split: fetch_outcome.splits option.splits\<close>)

lemma stuck_run:
  assumes "synthesis e = Absent"
  shows "playing c = [] \<Longrightarrow> isSpeaking (app c) \<Longrightarrow> isSpeaking (app (run e c evs))"
proof (induction evs arbitrary: c)
  case Nil
  then show ?case by (simp add: run_Nil)
next
  case (Cons ev evs)
  from stuck_step [OF assms Cons.prems, of ev] Cons.IH show ?case
    by (simp add: run_Cons)
qed

section \<open>The submission guard\<close>

text \<open>
  C3. Calling \<open>sendMessage\<close> while a request is awaited (\<open>isLoading\<close>), or while the input
  is empty after trimming, does nothing: the handler makes no call at all, so no message
  is appended and no request is issued, and the whole configuration stays as it was.
\<close>

theorem sendMessage_guard_noop:
  assumes "isLoading (app c) \<or> trim (inputMessage (app c)) = []"
  shows "sendMessage clk (app c) = [] \<and> commit (sendMessage clk (app c)) (app c) = app c \<and>
         step e c (Ev_sendMessage clk) = c"
proof -
  from assms have "sendMessage clk (app c) = []" by (auto simp: sendMessage_def)
  then show ?thesis by (simp add: commit_Nil perform_Nil)
qed

theorem sendMessage_guard_noop_witness:
  "trim (inputMessage (app blank_config)) = [] \<and>
   sendMessage clock0 (app blank_config) = [] \<and>
   step env0 blank_config (Ev_sendMessage clock0) = blank_config \<and>
   isLoading (app loading_config) \<and>
   sendMessage clock0 (app loading_config) = [] \<and>
   step env0 loading_config (Ev_sendMessage clock0) = loading_config"
proof -
  have b: "trim (inputMessage (app blank_config)) = []"
    by (simp add: blank_config_def str_def trim_def is_ws_def)
  have l: "isLoading (app loading_config)"
    by (simp add: loading_config_def)
  from b have b': "isLoading (app blank_config) \<or> trim (inputMessage (app blank_config)) = []" ..
  from l have l': "isLoading (app loading_config) \<or> trim (inputMessage (app loading_config)) = []" ..
  from sendMessage_guard_noop [OF b', of clock0 env0]
    sendMessage_guard_noop [OF l', of clock0 env0] b l
  show ?thesis by blast
qed

section \<open>Submitting a message\<close>

text \<open>
  C1, as stated: the request carries the last five messages of the store as it is after
  the user message has been appended. It does not: \<open>messages.slice(-5)\<close> reads the
  \<open>messages\<close> of the render in which \<open>sendMessage\<close> was called, and \<open>setMessages\<close> does not
  change that value. On an empty conversation the request carries an empty history, while
  the last five messages of the store after the append are the user message.
\<close>

theorem history_includes_submission_counterexample:
  "sendMessage clock0 hi_state =
     [SetMessages_append (userMessage clock0 hi_state), SetInputMessage [], SetIsLoading True,
      FetchChat (chat_request hi_state)] \<and>
   conversation_history (chat_request hi_state) = [] \<and>
   slice_last 5 (messages (commit (sendMessage clock0 hi_state) hi_state))
     = [userMessage clock0 hi_state] \<and>
   conversation_history (chat_request hi_state)
     \<noteq> slice_last 5 (messages (commit (sendMessage clock0 hi_state) hi_state))"
proof -
  have s: "sendMessage clock0 hi_state =
     [SetMessages_append (userMessage clock0 hi_state), SetInputMessage [], SetIsLoading True,
      FetchChat (chat_request hi_state)]"
    using hi_state_pass by (simp add: sendMessage_pass)
  have h: "conversation_history (chat_request hi_state) = []"
    by (simp add: chat_request_def hi_state_def initial_state_def slice_last_def)
  have m: "messages (commit (sendMessage clock0 hi_state) hi_state) = [userMessage clock0 hi_state]"
    by (simp add: s commit_Cons commit_Nil) (simp add: hi_state_def initial_state_def)
  show ?thesis
    by (simp add: h m slice_last_def) (rule s)
qed

text \<open>
  C1, amended. A call of \<open>sendMessage\<close> that passes the guard calls \<open>setMessages\<close> once,
  with the user message (sender \<open>user\<close>, the submitted text) appended to the list, clears
  the input, sets \<open>isLoading\<close>, and after that calls \<open>fetch\<close> once; the request carries the
  submitted text, the selected persona and the last \<open>min 5 n\<close> of the \<open>n\<close> messages that
  the conversation held before this submission, in their order. The submitted message
  travels in the \<open>message\<close> field and is no part of the history.
\<close>

theorem sendMessage_submits:
  assumes "trim (inputMessage s) \<noteq> []" and "\<not> isLoading s"
  shows "filter is_append (sendMessage clk s) = [SetMessages_append (userMessage clk s)] \<and>
         sender (userMessage clk s) = User \<and>
         text_msg (userMessage clk s) = JStr (inputMessage s) \<and>
         messages (commit (sendMessage clk s) s) = messages s @ [userMessage clk s] \<and>
         inputMessage (commit (sendMessage clk s) s) = [] \<and>
         isLoading (commit (sendMessage clk s) s) \<and>
         filter is_fetch (sendMessage clk s) = [FetchChat (chat_request s)] \<and>
         message (chat_request s) = inputMessage s \<and>
         selected_model (chat_request s) = selectedModel s \<and>
         conversation_history (chat_request s) = drop (length (messages s) - 5) (messages s) \<and>
         length (conversation_history (chat_request s)) = min 5 (length (messages s)) \<and>
         sendMessage clk s ! 0 = SetMessages_append (userMessage clk s) \<and>
         sendMessage clk s ! 3 = FetchChat (chat_request s)"
proof -
  note p = sendMessage_pass [OF assms, of clk]
  have a: "filter is_append (sendMessage clk s) = [SetMessages_append (userMessage clk s)]"
    and f: "filter is_fetch (sendMessage clk s) = [FetchChat (chat_request s)]"
    and i: "sendMessage clk s ! 0 = SetMessages_append (userMessage clk s)"
           "sendMessage clk s ! 3 = FetchChat (chat_request s)"
    by (simp_all add: p)
  have c: "commit (sendMessage clk s) s =
           s\<lparr>messages := messages s @ [userMessage clk s], inputMessage := [], isLoading := True\<rparr>"
    by (simp add: p commit_Cons commit_Nil)
  have u: "sender (userMessage clk s) = User" "text_msg (userMessage clk s) = JStr (inputMessage s)"
    by (simp_all add: userMessage_def)
  have r: "message (chat_request s) = inputMessage s"
    "selected_model (chat_request s) = selectedModel s"
    "conversation_history (chat_request s) = drop (length (messages s) - 5) (messages s)"
    by (simp_all add: chat_request_def slice_last_def)
  have l: "length (conversation_history (chat_request s)) = min 5 (length (messages s))"
    by (simp add: r)
  show ?thesis
    by (simp only: a f i u r(1,2) l c) (simp add: r(3))
qed

theorem sendMessage_submits_witness:
  "trim (inputMessage hi_state) \<noteq> [] \<and> \<not> isLoading hi_state \<and>
   filter is_append (sendMessage clock0 hi_state) = [SetMessages_append (userMessage clock0 hi_state)] \<and>
   text_msg (userMessage clock0 hi_state) = JStr (str ''hi'') \<and>
   messages (commit (sendMessage clock0 hi_state) hi_state) = [userMessage clock0 hi_state] \<and>
   inputMessage (commit (sendMessage clock0 hi_state) hi_state) = [] \<and>
   filter is_fetch (sendMessage clock0 hi_state) = [FetchChat (chat_request hi_state)] \<and>
   message (chat_request hi_state) = str ''hi'' \<and>
   selected_model (chat_request hi_state) = str ''claude'' \<and>
   conversation_history (chat_request hi_state) = []"
proof -
  have h1: "trim (inputMessage hi_state) \<noteq> []" and h2: "\<not> isLoading hi_state"
    using hi_state_pass by simp_all
  have v: "inputMessage hi_state = str ''hi''" "messages hi_state = []"
    "selectedModel hi_state = str ''claude''"
    by (simp_all add: hi_state_def initial_state_def)
  from sendMessage_submits [OF h1 h2, of clock0] h1 h2
  show ?thesis by (simp add: v)
qed

text \<open>
  C10. The text is used as typed: the user message and the \<open>message\<close> field of the request
  hold the input buffer itself, not its trimmed form. The guard only makes sure that
  the buffer has a code unit that is no white space.
\<close>

theorem sendMessage_text_untrimmed:
  assumes "trim (inputMessage s) \<noteq> []" and "\<not> isLoading s"
  shows "filter is_append (sendMessage clk s) = [SetMessages_append (userMessage clk s)] \<and>
         text_msg (userMessage clk s) = JStr (inputMessage s) \<and>
         filter is_fetch (sendMessage clk s) = [FetchChat (chat_request s)] \<and>
         message (chat_request s) = inputMessage s \<and>
         (\<exists>c \<in> set (inputMessage s). \<not> is_ws c)"
proof -
  from assms(1) have "\<exists>c \<in> set (inputMessage s). \<not> is_ws c"
    by (simp add: trim_Nil_iff)
  then show ?thesis
    using assms by (simp add: sendMessage_pass userMessage_def chat_request_def)
qed

theorem sendMessage_text_untrimmed_witness:
  "trim (inputMessage padded_state) = str ''hi'' \<and>
   trim (inputMessage padded_state) \<noteq> [] \<and> \<not> isLoading padded_state \<and>
   filter is_append (sendMessage clock0 padded_state) = [SetMessages_append (userMessage clock0 padded_state)] \<and>
   text_msg (userMessage clock0 padded_state) = JStr (str '' hi '') \<and>
   filter is_fetch (sendMessage clock0 padded_state) = [FetchChat (chat_request padded_state)] \<and>
   message (chat_request padded_state) = str '' hi '' \<and>
   hd (str '' hi '') = 0x20 \<and> is_ws 0x20"
proof -
  have t: "trim (inputMessage padded_state) = str ''hi''"
    by (simp add: padded_state_def initial_state_def str_def trim_def is_ws_def)
  have h1: "trim (inputMessage padded_state) \<noteq> []"
    by (simp add: t str_def)
  have h2: "\<not> isLoading padded_state"
    by (simp add: padded_state_def initial_state_def)
  have i: "inputMessage padded_state = str '' hi ''"
    by (simp add: padded_state_def)
  have w: "hd (str '' hi '') = (0x20 :: 16 word) \<and> is_ws 0x20"
    by (simp add: str_def is_ws_def)
  from sendMessage_text_untrimmed [OF h1 h2, of clock0] t h1 h2 w
  show ?thesis unfolding i by blast
qed

section \<open>A failed request\<close>

text \<open>
  C5. When the \<open>fetch\<close> of a chat request rejects or the response is not ok, the rest of
  \<open>sendMessage\<close> appends one message from the assistant side, with \<open>error: true\<close> and the
  fixed text \<^verbatim>\<open>Sorry, I'm having trouble connecting right now. Please try again in a moment.\<close>,
  issues no further request, and sets \<open>isLoading\<close> to false; nothing else of the
  state changes, so the input buffer keeps its value. Straight after the submission that
  value is the empty string.
\<close>

theorem backend_failure_reported_once:
  assumes "outcome = FetchRejected \<or> outcome = FetchResponse False body"
  shows "filter is_append (sendMessage_resume e clk snap outcome)
           = [SetMessages_append (errorMessage clk)] \<and>
         error (errorMessage clk) = JBool True \<and>
         text_msg (errorMessage clk) = JStr apology \<and>
         text_msg (errorMessage clk)
           = JStr (str ''Sorry, I'm having trouble connecting right now. Please try again in a moment.'') \<and>
         sender (errorMessage clk) = AI \<and>
         filter is_fetch (sendMessage_resume e clk snap outcome) = [] \<and>
         commit (sendMessage_resume e clk snap outcome) s
           = s\<lparr>messages := messages s @ [errorMessage clk], isLoading := False\<rparr> \<and>
         (trim (inputMessage (app c)) \<noteq> [] \<and> \<not> isLoading (app c) \<longrightarrow>
            app (run e c [Ev_sendMessage clk', Ev_chat_settled (length (pending c)) outcome clk])
              = (app c)\<lparr>messages := messages (app c) @ [userMessage clk' (app c), errorMessage clk],
                        inputMessage := [], isLoading := False\<rparr>)"
proof -
  note r = resume_failure [OF try_block_failure [OF assms]]
  have a: "filter is_append (sendMessage_resume e clk snap outcome)
             = [SetMessages_append (errorMessage clk)]"
    and f: "filter is_fetch (sendMessage_resume e clk snap outcome) = []"
    by (simp_all add: r)
  have m: "error (errorMessage clk) = JBool True" "text_msg (errorMessage clk) = JStr apology"
    "sender (errorMessage clk) = AI"
    by (simp_all add: errorMessage_def)
  have t: "text_msg (errorMessage clk)
           = JStr (str ''Sorry, I'm having trouble connecting right now. Please try again in a moment.'')"
    by (simp add: errorMessage_def apology_def)
  have c: "commit (sendMessage_resume e clk snap outcome) s
           = s\<lparr>messages := messages s @ [errorMessage clk], isLoading := False\<rparr>" for snap s
    by (simp add: r commit_Cons commit_Nil)
  have s: "app (run e c [Ev_sendMessage clk', Ev_chat_settled (length (pending c)) outcome clk])
              = (app c)\<lparr>messages := messages (app c) @ [userMessage clk' (app c), errorMessage clk],
                        inputMessage := [], isLoading := False\<rparr>"
    if "trim (inputMessage (app c)) \<noteq> []" "\<not> isLoading (app c)"
  proof -
    have "run e c [Ev_sendMessage clk', Ev_chat_settled (length (pending c)) outcome clk]
          = step e (step e c (Ev_sendMessage clk'))
              (Ev_chat_settled (length (pending c)) outcome clk)"
      by (simp only: run_def foldl.simps)
    then show ?thesis
      by (simp only: step_sendMessage_pass [OF that]) (simp add: perform_def c)
  qed
  show ?thesis
    using a f m c s by (simp add: t)
qed

theorem backend_failure_reported_once_witness:
  "filter is_append (sendMessage_resume env0 clock1 hi_state FetchRejected)
           = [SetMessages_append (errorMessage clock1)] \<and>
   error (errorMessage clock1) = JBool True \<and>
   text_msg (errorMessage clock1) = JStr apology \<and>
   text_msg (errorMessage clock1)
     = JStr (str ''Sorry, I'm having trouble connecting right now. Please try again in a moment.'') \<and>
   text_msg (errorMessage clock1)
     = JStr [83, 111, 114, 114, 121, 44, 32, 73, 39, 109, 32, 104, 97, 118, 105, 110, 103, 32,
           116, 114, 111, 117, 98, 108, 101, 32, 99, 111, 110, 110, 101, 99, 116, 105, 110,
           103, 32, 114, 105, 103, 104, 116, 32, 110, 111, 119, 46, 32, 80, 108, 101, 97,
           115, 101, 32, 116, 114, 121, 32, 97, 103, 97, 105, 110, 32, 105, 110, 32, 97, 32,
           109, 111, 109, 101, 110, 116, 46] \<and>
   filter is_fetch (sendMessage_resume env0 clock1 hi_state FetchRejected) = [] \<and>
   trim (inputMessage (app hi_config)) \<noteq> [] \<and> \<not> isLoading (app hi_config) \<and>
   app (run env0 hi_config [Ev_sendMessage clock0, Ev_chat_settled 0 FetchRejected clock1])
     = hi_state\<lparr>messages := [userMessage clock0 hi_state, errorMessage clock1],
                inputMessage := [], isLoading := False\<rparr>"
proof -
  have o: "FetchRejected = FetchRejected \<or> FetchRejected = FetchResponse False None" by simp
  have a: "app hi_config = hi_state" "pending hi_config = []"
    by (simp_all add: hi_config_def initial_config_def)
  have g: "trim (inputMessage (app hi_config)) \<noteq> [] \<and> \<not> isLoading (app hi_config)"
    using hi_state_pass by (simp add: a)
  have m: "messages hi_state = []" by (simp add: hi_state_def initial_state_def)
  have u: "JStr (str ''Sorry, I'm having trouble connecting right now. Please try again in a moment.'')
     = JStr [83, 111, 114, 114, 121, 44, 32, 73, 39, 109, 32, 104, 97, 118, 105, 110, 103, 32,
           116, 114, 111, 117, 98, 108, 101, 32, 99, 111, 110, 110, 101, 99, 116, 105, 110,
           103, 32, 114, 105, 103, 104, 116, 32, 110, 111, 119, 46, 32, 80, 108, 101, 97,
           115, 101, 32, 116, 114, 121, 32, 97, 103, 97, 105, 110, 32, 105, 110, 32, 97, 32,
           109, 111, 109, 101, 110, 116, 46]"
    by (simp add: str_def)
  note th = backend_failure_reported_once [OF o, of env0 clock1 hi_state hi_state hi_config clock0]
  from th have 1: "filter is_append (sendMessage_resume env0 clock1 hi_state FetchRejected)
           = [SetMessages_append (errorMessage clock1)]"
    and 2: "error (errorMessage clock1) = JBool True"
    and 3: "text_msg (errorMessage clock1) = JStr apology"
    and 4: "text_msg (errorMessage clock1)
     = JStr (str ''Sorry, I'm having trouble connecting right now. Please try again in a moment.'')"
    and 5: "filter is_fetch (sendMessage_resume env0 clock1 hi_state FetchRejected) = []"
    by blast+
  from th g have "app (run env0 hi_config
        [Ev_sendMessage clock0, Ev_chat_settled (length (pending hi_config)) FetchRejected clock1])
     = (app hi_config)\<lparr>messages := messages (app hi_config)
          @ [userMessage clock0 (app hi_config), errorMessage clock1],
        inputMessage := [], isLoading := False\<rparr>"
    by blast
  then have 6: "app (run env0 hi_config
        [Ev_sendMessage clock0, Ev_chat_settled 0 FetchRejected clock1])
     = hi_state\<lparr>messages := [userMessage clock0 hi_state, errorMessage clock1],
                inputMessage := [], isLoading := False\<rparr>"
    by (simp add: a m)
  from 4 have 7: "text_msg (errorMessage clock1)
     = JStr [83, 111, 114, 114, 121, 44, 32, 73, 39, 109, 32, 104, 97, 118, 105, 110, 103, 32,
           116, 114, 111, 117, 98, 108, 101, 32, 99, 111, 110, 110, 101, 99, 116, 105, 110,
           103, 32, 114, 105, 103, 104, 116, 32, 110, 111, 119, 46, 32, 80, 108, 101, 97,
           115, 101, 32, 116, 114, 121, 32, 97, 103, 97, 105, 110, 32, 105, 110, 32, 97, 32,
           109, 111, 109, 101, 110, 116, 46]"
    by (simp only: u)
  from 1 2 3 4 5 6 7 g show ?thesis by blast
qed

section \<open>Voice playback parameters\<close>

text \<open>
  C6. Every utterance that \<open>synthesizeVoice\<close> hands to the engine has pitch 1.0 and volume
  0.8, and its rate follows the tempo of the voice model: 1.2 for \<open>fast\<close>, 0.8 for
  \<open>slow_moderate\<close>, 1.0 for anything else, a missing tempo included. With a working
  engine and a voice model that is an object, exactly one such utterance is spoken.
\<close>

theorem tempo_mapping:
  "(SpeechSpeak u \<in> set (synthesizeVoice e txt vm) \<longrightarrow>
      pitch u = 1.0 \<and> volume u = 0.8 \<and>
      (get_prop vm (str ''tempo'') = JStr (str ''fast'') \<longrightarrow> rate u = 1.2) \<and>
      (get_prop vm (str ''tempo'') = JStr (str ''slow_moderate'') \<longrightarrow> rate u = 0.8) \<and>
      (get_prop vm (str ''tempo'') \<noteq> JStr (str ''fast'') \<and>
       get_prop vm (str ''tempo'') \<noteq> JStr (str ''slow_moderate'') \<longrightarrow> rate u = 1.0)) \<and>
   (synthesis e = Working \<and> \<not> nullish vm \<longrightarrow>
      filter is_speak (synthesizeVoice e txt vm)
        = [SpeechSpeak \<lparr> utext = txt, rate = tempo_rate (get_prop vm (str ''tempo'')),
                          pitch = 1.0, volume = 0.8 \<rparr>])"
proof -
  have n: "str ''slow_moderate'' \<noteq> str ''fast''" by (simp add: str_def)
  have a: "pitch u = 1.0 \<and> volume u = 0.8 \<and>
      (get_prop vm (str ''tempo'') = JStr (str ''fast'') \<longrightarrow> rate u = 1.2) \<and>
      (get_prop vm (str ''tempo'') = JStr (str ''slow_moderate'') \<longrightarrow> rate u = 0.8) \<and>
      (get_prop vm (str ''tempo'') \<noteq> JStr (str ''fast'') \<and>
       get_prop vm (str ''tempo'') \<noteq> JStr (str ''slow_moderate'') \<longrightarrow> rate u = 1.0)"
    if "SpeechSpeak u \<in> set (synthesizeVoice e txt vm)"
    using synthesizeVoice_speaks [OF that] n by (simp add: tempo_rate_def)
  have b: "filter is_speak (synthesizeVoice e txt vm)
        = [SpeechSpeak \<lparr> utext = txt, rate = tempo_rate (get_prop vm (str ''tempo'')),
                          pitch = 1.0, volume = 0.8 \<rparr>]"
    if "synthesis e = Working" "\<not> nullish vm"
    using that by (simp add: synthesizeVoice_def)
  from a b show ?thesis by blast
qed

theorem tempo_mapping_witness:
  "filter is_speak (synthesizeVoice env0 (JStr (str ''Irie'')) fast_voice)
     = [SpeechSpeak \<lparr> utext = JStr (str ''Irie''), rate = 1.2, pitch = 1.0, volume = 0.8 \<rparr>] \<and>
   filter is_speak (synthesizeVoice env0 (JStr (str ''Irie'')) slow_voice)
     = [SpeechSpeak \<lparr> utext = JStr (str ''Irie''), rate = 0.8, pitch = 1.0, volume = 0.8 \<rparr>] \<and>
   filter is_speak (synthesizeVoice env0 (JStr (str ''Irie'')) normal_voice)
     = [SpeechSpeak \<lparr> utext = JStr (str ''Irie''), rate = 1.0, pitch = 1.0, volume = 0.8 \<rparr>] \<and>
   filter is_speak (synthesizeVoice env0 (JStr (str ''Irie'')) (JObj []))
     = [SpeechSpeak \<lparr> utext = JStr (str ''Irie''), rate = 1.0, pitch = 1.0, volume = 0.8 \<rparr>]"
proof -
  have e: "synthesis env0 = Working" by (simp add: env0_def)
  have v: "\<not> nullish fast_voice" "\<not> nullish slow_voice" "\<not> nullish normal_voice" "\<not> nullish (JObj [])"
    by (simp_all add: fast_voice_def slow_voice_def normal_voice_def)
  have t: "tempo_rate (get_prop fast_voice (str ''tempo'')) = 1.2"
    "tempo_rate (get_prop slow_voice (str ''tempo'')) = 0.8"
    "tempo_rate (get_prop normal_voice (str ''tempo'')) = 1.0"
    "tempo_rate (get_prop (JObj []) (str ''tempo'')) = 1.0"
    by (simp_all add: fast_voice_def slow_voice_def normal_voice_def tempo_rate_def str_def)
  from tempo_mapping [of _ env0 "JStr (str ''Irie'')" fast_voice]
    tempo_mapping [of _ env0 "JStr (str ''Irie'')" slow_voice]
    tempo_mapping [of _ env0 "JStr (str ''Irie'')" normal_voice]
    tempo_mapping [of _ env0 "JStr (str ''Irie'')" "JObj []"] e v
  show ?thesis unfolding t by blast
qed

section \<open>Voice capture\<close>

text \<open>
  C7. Each callback of the recognition object ends listening. A result writes the
  transcript into the input buffer and does not submit it: no message is appended, no
  request is issued and no call is left pending. An error or the end of recognition
  clears \<open>isListening\<close> and nothing else, so the input buffer keeps its value.
\<close>

theorem capture_emission_ends_listening:
  "app (step e c (Ev_recognition_result t)) = (app c)\<lparr>inputMessage := t, isListening := False\<rparr> \<and>
   pending (step e c (Ev_recognition_result t)) = pending c \<and>
   filter is_append (recognition_onresult t) = [] \<and>
   filter is_fetch (recognition_onresult t) = [] \<and>
   app (step e c Ev_recognition_error) = (app c)\<lparr>isListening := False\<rparr> \<and>
   pending (step e c Ev_recognition_error) = pending c \<and>
   inputMessage (app (step e c Ev_recognition_error)) = inputMessage (app c) \<and>
   app (step e c Ev_recognition_end) = (app c)\<lparr>isListening := False\<rparr> \<and>
   pending (step e c Ev_recognition_end) = pending c \<and>
   inputMessage (app (step e c Ev_recognition_end)) = inputMessage (app c)"
  by (simp add: perform_def commit_Cons commit_Nil recognition_onresult_def
      recognition_onerror_def recognition_onend_def)

theorem capture_emission_ends_listening_witness:
  "isListening (app listening_config) \<and>
   app (step env0 listening_config (Ev_recognition_result (str ''wah gwaan'')))
     = hi_state\<lparr>inputMessage := str ''wah gwaan''\<rparr> \<and>
   pending (step env0 listening_config (Ev_recognition_result (str ''wah gwaan''))) = [] \<and>
   app (step env0 listening_config Ev_recognition_error) = hi_state \<and>
   app (step env0 listening_config Ev_recognition_end) = hi_state"
proof -
  have a: "app listening_config = hi_state\<lparr>isListening := True\<rparr>" "pending listening_config = []"
    by (simp_all add: listening_config_def initial_config_def)
  have h: "isListening hi_state = False"
    by (simp add: hi_state_def initial_state_def)
  have r: "hi_state\<lparr>isListening := False\<rparr> = hi_state"
    "hi_state\<lparr>inputMessage := t, isListening := False\<rparr> = hi_state\<lparr>inputMessage := t\<rparr>" for t
    by (simp_all add: hi_state_def initial_state_def)
  from capture_emission_ends_listening [of env0 listening_config "str ''wah gwaan''"]
  show ?thesis by (simp add: a r)
qed

section \<open>Stopping capture and playback\<close>

text \<open>
  C9. \<open>stopListening\<close> when not listening makes no call and leaves the configuration as it
  is. \<open>stopSpeaking\<close> when not speaking leaves the component state (session flags, input
  buffer, conversation) and the pending calls as they are. Stopping twice is the same as
  stopping once. Neither handler has a failing branch.
\<close>

theorem stop_when_inactive_noop:
  "(\<not> isListening (app c) \<longrightarrow>
      stopListening e (app c) = [] \<and> step e c Ev_stopListening = c) \<and>
   (\<not> isSpeaking (app c) \<longrightarrow>
      app (step e c Ev_stopSpeaking) = app c \<and>
      pending (step e c Ev_stopSpeaking) = pending c) \<and>
   step e (step e c Ev_stopListening) Ev_stopListening = step e c Ev_stopListening \<and>
   step e (step e c Ev_stopSpeaking) Ev_stopSpeaking = step e c Ev_stopSpeaking"
  by (simp add: perform_def commit_Cons commit_Nil stopListening_def stopSpeaking_def)

theorem stop_when_inactive_noop_witness:
  "\<not> isListening (app hi_config) \<and> stopListening env0 (app hi_config) = [] \<and>
   step env0 hi_config Ev_stopListening = hi_config \<and>
   \<not> isSpeaking (app hi_config) \<and>
   stopSpeaking env0 = [SpeechCancel, SetIsSpeaking False] \<and>
   app (step env0 hi_config Ev_stopSpeaking) = app hi_config \<and>
   pending (step env0 hi_config Ev_stopSpeaking) = pending hi_config"
proof -
  have h: "\<not> isListening (app hi_config)" "\<not> isSpeaking (app hi_config)"
    by (simp_all add: hi_config_def initial_config_def hi_state_def initial_state_def)
  have s: "stopSpeaking env0 = [SpeechCancel, SetIsSpeaking False]"
    by (simp add: stopSpeaking_def env0_def)
  from stop_when_inactive_noop [of hi_config env0] h s
  show ?thesis by blast
qed

section \<open>The conversation\<close>

text \<open>
  C2, as stated: every id is strictly greater than the ids appended before it. The ids
  are clock readings, \<open>Date.now()\<close> for a user message and \<open>Date.now() + 1\<close> for a reply,
  so a submission in the millisecond after a reply repeats the reply's id: here the
  failed exchange ends at 1400 with id 1401, and the next submission at 1401 gets 1401
  again.
\<close>

theorem ids_strictly_increasing_counterexample:
  "map id_msg (messages (app (run env0 initial_config
      (failed_exchange @ [Ev_input_change (str ''yo''), Ev_sendMessage clock2]))))
     = [1000, 1401, 1401] \<and>
   \<not> sorted_wrt (<) (map id_msg (messages (app (run env0 initial_config
      (failed_exchange @ [Ev_input_change (str ''yo''), Ev_sendMessage clock2])))))"
proof -
  have t: "trim (str ''yo'') \<noteq> []" by (simp add: str_def trim_def is_ws_def)
  have "map id_msg (messages (app (run env0 initial_config
      (failed_exchange @ [Ev_input_change (str ''yo''), Ev_sendMessage clock2]))))
     = [1000, 1401, 1401]"
    by (simp only: run_append run_failed_exchange run_Cons run_Nil)
      (simp add: t perform_def input_onChange_def sendMessage_def commit_Cons commit_Nil
        userMessage_def errorMessage_def clock0_def clock1_def clock2_def)
  then show ?thesis by simp
qed

text \<open>
  C2, amended. Whatever events follow, the conversation after them is the conversation
  before them with messages added at its end: nothing is removed, changed or reordered.
  The id of a user message is \<open>Date.now()\<close> at its submission, the id of a reply or of an
  error message is \<open>Date.now() + 1\<close> when the request settles. The ids are strictly
  increasing when the clock readings run ahead of the ids given so far.
\<close>

theorem conversation_append_only:
  "(\<exists>new. messages (app (run e c (evs @ evs'))) = messages (app (run e c evs)) @ new) \<and>
   id_msg (userMessage clk s) = now clk \<and>
   id_msg (aiMessage clk r) = now clk + 1 \<and>
   id_msg (errorMessage clk) = now clk + 1 \<and>
   (clock_ahead hi evs \<longrightarrow>
      sorted_wrt (<) (map id_msg (messages (app (run e initial_config evs)))))"
proof -
  have a: "\<exists>new. messages (app (run e c (evs @ evs'))) = messages (app (run e c evs)) @ new"
    unfolding run_append by (rule run_messages)
  have b: "sorted_wrt (<) (map id_msg (messages (app (run e initial_config evs))))"
    if "clock_ahead hi evs"
    using that by (rule run_ids) (simp_all add: initial_config_def initial_state_def)
  from a b show ?thesis
    by (simp add: userMessage_def aiMessage_def errorMessage_def)
qed

theorem conversation_append_only_witness:
  "clock_ahead 0 failed_exchange \<and>
   map id_msg (messages (app (run env0 initial_config failed_exchange))) = [1000, 1401] \<and>
   sorted_wrt (<) (map id_msg (messages (app (run env0 initial_config failed_exchange))))"
proof -
  have c: "clock_ahead 0 failed_exchange"
    by (simp add: failed_exchange_def clock0_def clock1_def)
  have i: "map id_msg (messages (app (run env0 initial_config failed_exchange))) = [1000, 1401]"
    by (simp add: run_failed_exchange userMessage_def errorMessage_def clock0_def clock1_def)
  from conversation_append_only [where e = env0 and evs = failed_exchange and hi = 0] c i
  show ?thesis by blast
qed

section \<open>Playback\<close>

text \<open>
  C8. In every configuration the session reaches from its start, the engine holds at most
  one utterance. When a settled request makes the rest of \<open>sendMessage\<close> speak, the
  response was ok and carried a truthy voice model, nothing is being spoken at that
  moment, the reply is appended first and spoken after that, and the engine then holds
  this one utterance. When a request settles while \<open>isSpeaking\<close>, nothing is spoken for it
  and the engine's utterances stay as they are.
\<close>

theorem single_playback:
  assumes "c = run e initial_config evs"
  shows "length (playing c) \<le> 1 \<and>
    (k < length (pending c) \<and>
     SpeechSpeak u \<in> set (sendMessage_resume e clk (pending c ! k) outcome) \<longrightarrow>
       \<not> isSpeaking (app c) \<and> playing c = [] \<and>
       (\<exists>data. outcome = FetchResponse True (Some data) \<and>
          truthy (get_prop (get_prop data (str ''response'')) (str ''voice_model'')) \<and>
          sendMessage_resume e clk (pending c ! k) outcome =
            [SetMessages_append (aiMessage clk (get_prop data (str ''response''))),
             SetIsSpeaking True, SpeechSpeak u, SetIsLoading False] \<and>
          utext u = text_msg (aiMessage clk (get_prop data (str ''response'')))) \<and>
       playing (step e c (Ev_chat_settled k outcome clk)) = [u]) \<and>
    (k < length (pending c) \<and> isSpeaking (app c) \<longrightarrow>
       filter is_speak (sendMessage_resume e clk (pending c ! k) outcome) = [] \<and>
       playing (step e c (Ev_chat_settled k outcome clk)) = playing c)"
proof -
  have inv: "session_inv c"
    unfolding assms by (rule session_inv_run [OF session_inv_initial])
  then have one: "length (playing c) \<le> 1"
    and quiet: "playing c \<noteq> [] \<longrightarrow> isSpeaking (app c)"
    by (simp_all add: session_inv_def)
  have snap: "isSpeaking (app c) \<longrightarrow> isSpeaking (pending c ! k)" if "k < length (pending c)"
    using inv that by (simp add: session_inv_def)
  have started: "\<not> isSpeaking (app c) \<and> playing c = [] \<and>
       (\<exists>data. outcome = FetchResponse True (Some data) \<and>
          truthy (get_prop (get_prop data (str ''response'')) (str ''voice_model'')) \<and>
          sendMessage_resume e clk (pending c ! k) outcome =
            [SetMessages_append (aiMessage clk (get_prop data (str ''response''))),
             SetIsSpeaking True, SpeechSpeak u, SetIsLoading False] \<and>
          utext u = text_msg (aiMessage clk (get_prop data (str ''response'')))) \<and>
       playing (step e c (Ev_chat_settled k outcome clk)) = [u]"
    if k: "k < length (pending c)"
      and u: "SpeechSpeak u \<in> set (sendMessage_resume e clk (pending c ! k) outcome)"
  proof (cases rule: resume_shapes [of e clk "pending c ! k" outcome])
    case (spoken data)
    from spoken(3) snap [OF k] have n: "\<not> isSpeaking (app c)" by blast
    with quiet have p: "playing c = []" by blast
    from u spoken(5) have r: "sendMessage_resume e clk (pending c ! k) outcome =
            [SetMessages_append (aiMessage clk (get_prop data (str ''response''))),
             SetIsSpeaking True, SpeechSpeak u, SetIsLoading False]"
      by auto
    from u spoken(5) have t: "utext u = text_msg (aiMessage clk (get_prop data (str ''response'')))"
      by (auto simp: aiMessage_def)
    have "playing (step e c (Ev_chat_settled k outcome clk)) = [u]"
      using k by (simp add: r p perform_def)
    with n p r t spoken(1,2) show ?thesis by blast
  qed (use u in simp_all)
  have dropped: "filter is_speak (sendMessage_resume e clk (pending c ! k) outcome) = [] \<and>
       playing (step e c (Ev_chat_settled k outcome clk)) = playing c"
    if k: "k < length (pending c)" and s: "isSpeaking (app c)"
  proof -
    from s snap [OF k] have "isSpeaking (pending c ! k)" by blast
    then show ?thesis
      by (cases rule: resume_shapes [of e clk "pending c ! k" outcome])
        (use k in \<open>simp_all add: perform_def\<close>)
  qed
  from one started dropped show ?thesis by blast
qed

theorem single_playback_witness:
  "0 < length (pending (run env0 initial_config submit_hi)) \<and>
   SpeechSpeak irie_utterance \<in> set (sendMessage_resume env0 clock1
      (pending (run env0 initial_config submit_hi) ! 0) voiced_response) \<and>
   \<not> isSpeaking (app (run env0 initial_config submit_hi)) \<and>
   playing (run env0 initial_config submit_hi) = [] \<and>
   playing (step env0 (run env0 initial_config submit_hi)
      (Ev_chat_settled 0 voiced_response clock1)) = [irie_utterance] \<and>
   0 < length (pending (run env0 initial_config speaking_resubmit)) \<and>
   isSpeaking (app (run env0 initial_config speaking_resubmit)) \<and>
   filter is_speak (sendMessage_resume env0 clock1
      (pending (run env0 initial_config speaking_resubmit) ! 0) voiced_response) = [] \<and>
   playing (step env0 (run env0 initial_config speaking_resubmit)
      (Ev_chat_settled 0 voiced_response clock1)) = [irie_utterance]"
proof -
  have "synthesis env0 = Working" "\<not> isSpeaking hi_state"
    by (simp_all add: env0_def hi_state_def initial_state_def)
  from resume_voiced_working [OF this, of clock1]
  have a: "0 < length (pending (run env0 initial_config submit_hi)) \<and>
     SpeechSpeak irie_utterance \<in> set (sendMessage_resume env0 clock1
      (pending (run env0 initial_config submit_hi) ! 0) voiced_response)"
    by (auto simp: run_submit_hi)
  from run_speaking_resubmit
  have b: "0 < length (pending (run env0 initial_config speaking_resubmit)) \<and>
     isSpeaking (app (run env0 initial_config speaking_resubmit))"
    and p: "playing (run env0 initial_config speaking_resubmit) = [irie_utterance]"
    by simp_all
  from single_playback [OF refl, where k = 0 and e = env0 and evs = submit_hi
        and u = irie_utterance and clk = clock1 and outcome = voiced_response] a
    single_playback [OF refl, where k = 0 and e = env0 and evs = speaking_resubmit
        and clk = clock1 and outcome = voiced_response] b
  show ?thesis unfolding p by blast
qed

text \<open>
  C4, on the code. Where \<open>speechSynthesis\<close> is not in \<open>window\<close>, \<open>synthesizeVoice\<close> sets
  \<open>isSpeaking\<close> and does nothing else, and \<open>stopSpeaking\<close> does nothing at all: after a
  reply with a voice model, \<open>isSpeaking\<close> stays true whatever events follow.
\<close>

theorem speaking_stuck_without_engine:
  assumes "synthesis e = Absent"
  shows "synthesizeVoice e txt vm = [SetIsSpeaking True] \<and> stopSpeaking e = [] \<and>
    (playing c = [] \<longrightarrow>
       isSpeaking (app (run e (perform (synthesizeVoice e txt vm) c) evs))) \<and>
    isSpeaking (app (run e initial_config
       (submit_hi @ Ev_chat_settled 0 voiced_response clk # evs)))"
proof -
  have v: "synthesizeVoice e t v = [SetIsSpeaking True]" for t v
    using assms by (simp add: synthesizeVoice_def)
  have s: "stopSpeaking e = []"
    using assms by (simp add: stopSpeaking_def)
  have a: "isSpeaking (app (run e (perform (synthesizeVoice e txt vm) c) evs))"
    if "playing c = []"
    using assms by (rule stuck_run) (simp_all add: v perform_def commit_Cons commit_Nil that)
  have r: "\<exists>m. sendMessage_resume e clk hi_state voiced_response =
     [SetMessages_append m, SetIsSpeaking True, SetIsLoading False]"
  proof (cases rule: resume_shapes [of e clk hi_state voiced_response])
    case failure
    then show ?thesis
      by (simp add: try_block_def voiced_response_def Let_def)
  next
    case (silent data)
    with voiced_response_props [OF silent(1)] show ?thesis
      by (simp add: hi_state_def initial_state_def)
  qed (use assms in simp_all)
  then obtain m where m: "sendMessage_resume e clk hi_state voiced_response =
     [SetMessages_append m, SetIsSpeaking True, SetIsLoading False]" ..
  have b: "isSpeaking (app (run e initial_config
       (submit_hi @ Ev_chat_settled 0 voiced_response clk # evs)))"
    unfolding run_append run_submit_hi run_Cons
    using assms by (rule stuck_run) (simp_all add: m perform_def commit_Cons commit_Nil)
  from v s a b show ?thesis by blast
qed

theorem speaking_stuck_without_engine_witness:
  "synthesis silent_env = Absent \<and>
   synthesizeVoice silent_env (JStr (str ''Irie'')) fast_voice = [SetIsSpeaking True] \<and>
   stopSpeaking silent_env = [] \<and>
   playing initial_config = [] \<and>
   isSpeaking (app (run silent_env
      (perform (synthesizeVoice silent_env (JStr (str ''Irie'')) fast_voice) initial_config)
      [Ev_stopSpeaking, Ev_utterance_end, Ev_utterance_error])) \<and>
   isSpeaking (app (run silent_env initial_config
      (submit_hi @ [Ev_chat_settled 0 voiced_response clock1, Ev_stopSpeaking,
                    Ev_utterance_end])))"
proof -
  have a: "synthesis silent_env = Absent" by (simp add: silent_env_def)
  have p: "playing initial_config = []" by (simp add: initial_config_def)
  from speaking_stuck_without_engine [OF a, where vm = fast_voice and c = initial_config
        and evs = "[Ev_stopSpeaking, Ev_utterance_end, Ev_utterance_error]" and clk = clock1]
    speaking_stuck_without_engine [OF a, where vm = fast_voice and c = initial_config
        and evs = "[Ev_stopSpeaking, Ev_utterance_end]" and clk = clock1] a p
  show ?thesis by blast
qed

end
